theory Spec2Isabelle
  imports Complex_Main "HOL-Library.Word"
begin

section \<open>The target process as seen by \<open>MemoryReader\<close>\<close>

text \<open>
  \<open>memory_reader.py\<close> talks to another process through pymem. The model keeps the
  part of that process the reader can observe: the region table answered by
  \<open>pymem.memory.virtual_query\<close>, the byte contents of the mapped addresses, the module
  table, the base address of the main module and whether the process still runs. Every
  call that reaches the operating system is appended to \<open>calls\<close>, so that a statement
  such as "no byte is read" is a statement about that list.

  Python integers are unbounded, so addresses and the sizes of regions and images are
  \<open>int\<close>; a number of bytes that is read or written is a \<open>nat\<close>. The \<open>run_in_executor\<close> bridge only moves
  a call to a worker thread and hands its result (or its exception) back; a single
  invocation is modelled as the call itself.
\<close>

type_synonym byte = "8 word"
type_synonym bytes = "byte list"

datatype error =
    ClientClosedError
  | MemoryReadError int
  | MemoryWriteError int
  | PatternFailed bytes
  | PatternMultipleResults nat bytes
  | ValueError string
  | RuntimeError string
  | WinAPIError
  | AttributeError
  | IndexError
  | StructError

datatype MEMORY_STATE = MEM_COMMIT | MEM_FREE | MEM_RESERVE | MEM_DECOMMIT | MEM_RELEASE

datatype MEMORY_PROTECTION =
    PAGE_EXECUTE
  | PAGE_EXECUTE_READ
  | PAGE_EXECUTE_READWRITE
  | PAGE_EXECUTE_WRITECOPY
  | PAGE_NOACCESS
  | PAGE_READONLY
  | PAGE_READWRITE
  | PAGE_WRITECOPY
  | PAGE_GUARD
  | PAGE_NOCACHE
  | PAGE_WRITECOMBINE

record mbi =
  BaseAddress :: int
  RegionSize :: int
  state :: MEMORY_STATE
  protect :: MEMORY_PROTECTION

record module_info =
  lpBaseOfDll :: int
  SizeOfImage :: int

datatype os_call =
    QueryRegion int
  | ReadMemory int nat
  | WriteMemory int bytes
  | CheckRunning

record process =
  process_base :: int
  module_from_name :: "string \<rightharpoonup> module_info"
  virtual_query :: "int \<rightharpoonup> mbi"
  memory :: "int \<rightharpoonup> byte"
  running :: bool
  calls :: "os_call list"

text \<open>
  Reading \<open>n\<close> bytes at \<open>a\<close> succeeds when every address of the range is mapped and
  fails as a whole otherwise; writing likewise, and a failed write changes nothing.
\<close>

definition mem_read :: "(int \<rightharpoonup> byte) \<Rightarrow> int \<Rightarrow> nat \<Rightarrow> bytes option" where
  "mem_read m a n =
     (let cells = map (\<lambda>i. m (a + int i)) [0..<n]
      in if list_all (\<lambda>c. c \<noteq> None) cells then Some (map the cells) else None)"

definition mem_write :: "(int \<rightharpoonup> byte) \<Rightarrow> int \<Rightarrow> bytes \<Rightarrow> (int \<rightharpoonup> byte) option" where
  "mem_write m a bs =
     (if list_all (\<lambda>i. m (a + int i) \<noteq> None) [0..<length bs]
      then Some (\<lambda>x. if a \<le> x \<and> x < a + int (length bs) then Some (bs ! nat (x - a)) else m x)
      else None)"

definition log_call :: "os_call \<Rightarrow> process \<Rightarrow> process" where
  "log_call c p = p\<lparr>calls := calls p @ [c]\<rparr>"

definition is_running :: "process \<Rightarrow> bool \<times> process" where
  "is_running p = (running p, log_call CheckRunning p)"

section \<open>Byte-level I/O\<close>

text \<open>
  \<open>read_bytes\<close> and \<open>write_bytes\<close>: the pymem call first; only in the handler of
  its \<open>MemoryReadError\<close> / \<open>MemoryWriteError\<close> is \<open>is_running\<close> asked.
\<close>

definition read_bytes :: "process \<Rightarrow> int \<Rightarrow> nat \<Rightarrow> (error + bytes) \<times> process" where
  "read_bytes p address sz =
     (let p1 = log_call (ReadMemory address sz) p in
      case mem_read (memory p1) address sz of
        Some data \<Rightarrow> (Inr data, p1)
      | None \<Rightarrow>
          (case is_running p1 of
             (alive, p2) \<Rightarrow>
               if \<not> alive then (Inl ClientClosedError, p2)
               else (Inl (MemoryReadError address), p2)))"

definition write_bytes :: "process \<Rightarrow> int \<Rightarrow> bytes \<Rightarrow> (error + unit) \<times> process" where
  "write_bytes p address bs =
     (let p1 = log_call (WriteMemory address bs) p in
      case mem_write (memory p1) address bs of
        Some m \<Rightarrow> (Inr (), p1\<lparr>memory := m\<rparr>)
      | None \<Rightarrow>
          (case is_running p1 of
             (alive, p2) \<Rightarrow>
               if \<not> alive then (Inl ClientClosedError, p2)
               else (Inl (MemoryWriteError address), p2)))"

section \<open>Typed reads and writes\<close>

text \<open>
  \<open>type_format_dict\<close> is imported from the package and Python's \<open>struct\<close> module does
  the encoding; neither is part of \<open>memory_reader.py\<close>. Both are parameters: the table
  as a map from type names to formats, \<open>struct\<close> as the three functions the reader
  calls. \<open>pack\<close> and \<open>unpack\<close> answer \<open>None\<close> where \<open>struct.error\<close> is raised.
\<close>

record ('f, 'v) struct_module =
  calcsize :: "'f \<Rightarrow> nat"
  pack :: "'f \<Rightarrow> 'v \<Rightarrow> bytes option"
  unpack :: "'f \<Rightarrow> bytes \<Rightarrow> 'v option"

definition read_typed ::
  "(string \<rightharpoonup> 'f) \<Rightarrow> ('f, 'v) struct_module \<Rightarrow> process \<Rightarrow> int \<Rightarrow> string
     \<Rightarrow> (error + 'v) \<times> process" where
  "read_typed type_format_dict struct p address data_type =
     (case type_format_dict data_type of
        None \<Rightarrow> (Inl (ValueError (data_type @ '' is not a valid data type'')), p)
      | Some type_format \<Rightarrow>
          (case read_bytes p address (calcsize struct type_format) of
             (Inl e, p1) \<Rightarrow> (Inl e, p1)
           | (Inr data, p1) \<Rightarrow>
               (case unpack struct type_format data of
                  None \<Rightarrow> (Inl StructError, p1)
                | Some v \<Rightarrow> (Inr v, p1))))"

definition write_typed ::
  "(string \<rightharpoonup> 'f) \<Rightarrow> ('f, 'v) struct_module \<Rightarrow> process \<Rightarrow> int \<Rightarrow> 'v \<Rightarrow> string
     \<Rightarrow> (error + unit) \<times> process" where
  "write_typed type_format_dict struct p address val data_type =
     (case type_format_dict data_type of
        None \<Rightarrow> (Inl (ValueError (data_type @ '' is not a valid data type'')), p)
      | Some type_format \<Rightarrow>
          (case pack struct type_format val of
             None \<Rightarrow> (Inl StructError, p)
           | Some packed_data \<Rightarrow> write_bytes p address packed_data))"

section \<open>The pattern scanner\<close>

text \<open>
  \<open>re.finditer\<close> is a parameter as well: \<open>finditer pattern page_bytes\<close> is the list of
  \<open>match.span()[0]\<close> of the matches it yields, in order. The page scan calls the
  functions of \<open>pymem.memory\<close> directly and catches nothing: a region query or a read
  that the operating system refuses ends the scan with pymem's \<open>WinAPIError\<close>.
\<close>

definition allowed_protections :: "MEMORY_PROTECTION list" where
  "allowed_protections =
     [PAGE_EXECUTE_READ, PAGE_EXECUTE_READWRITE, PAGE_READWRITE, PAGE_READONLY]"

definition scan_page_return_all ::
  "(bytes \<Rightarrow> bytes \<Rightarrow> nat list) \<Rightarrow> process \<Rightarrow> int \<Rightarrow> bytes
     \<Rightarrow> (error + int \<times> int list option) \<times> process" where
  "scan_page_return_all finditer p address pattern =
     (let p1 = log_call (QueryRegion address) p in
      case virtual_query p1 address of
        None \<Rightarrow> (Inl WinAPIError, p1)
      | Some mbi \<Rightarrow>
          (let next_region = BaseAddress mbi + RegionSize mbi in
           if state mbi \<noteq> MEM_COMMIT \<or> protect mbi \<notin> set allowed_protections
           then (Inr (next_region, None), p1)
           else
             (let p2 = log_call (ReadMemory address (nat (RegionSize mbi))) p1 in
              case mem_read (memory p2) address (nat (RegionSize mbi)) of
                None \<Rightarrow> (Inl WinAPIError, p2)
              | Some page_bytes \<Rightarrow>
                  (Inr (next_region,
                        Some (map (\<lambda>start. address + int start) (finditer pattern page_bytes))),
                   p2))))"

text \<open>
  The two \<open>while\<close> loops. Nothing in the code bounds the number of rounds (a region
  table whose regions do not advance keeps the cursor below the limit for ever), so the
  loops are partial functions and \<open>None\<close> stands for a scan that never returns. An
  exception raised by a page scan leaves the loop at once.
\<close>

partial_function (option) scan_all_from_loop ::
  "(bytes \<Rightarrow> bytes \<Rightarrow> nat list) \<Rightarrow> bytes \<Rightarrow> bool \<Rightarrow> int \<Rightarrow> int list \<Rightarrow> process
     \<Rightarrow> ((error + int list) \<times> process) option" where
  "scan_all_from_loop finditer pattern return_multiple next_region found p =
     (if next_region < 0x7FFFFFFF0000 then
        (case scan_page_return_all finditer p next_region pattern of
           (Inl e, p1) \<Rightarrow> Some (Inl e, p1)
         | (Inr (next_region1, page_found), p1) \<Rightarrow>
             (let found1 = (case page_found of
                              None \<Rightarrow> found
                            | Some pf \<Rightarrow> if pf \<noteq> [] then found @ pf else found)
              in if \<not> return_multiple \<and> found1 \<noteq> [] then Some (Inr found1, p1)
                 else scan_all_from_loop finditer pattern return_multiple next_region1 found1 p1))
      else Some (Inr found, p))"

definition scan_all_from ::
  "(bytes \<Rightarrow> bytes \<Rightarrow> nat list) \<Rightarrow> int \<Rightarrow> process \<Rightarrow> bytes \<Rightarrow> bool
     \<Rightarrow> ((error + int list) \<times> process) option" where
  "scan_all_from finditer start_address p pattern return_multiple =
     scan_all_from_loop finditer pattern return_multiple start_address [] p"

partial_function (option) scan_entire_module_loop ::
  "(bytes \<Rightarrow> bytes \<Rightarrow> nat list) \<Rightarrow> bytes \<Rightarrow> int \<Rightarrow> int \<Rightarrow> int list \<Rightarrow> process
     \<Rightarrow> ((error + int list) \<times> process) option" where
  "scan_entire_module_loop finditer pattern max_address page_address found p =
     (if page_address < max_address then
        (case scan_page_return_all finditer p page_address pattern of
           (Inl e, p1) \<Rightarrow> Some (Inl e, p1)
         | (Inr (page_address1, page_found), p1) \<Rightarrow>
             (let found1 = (case page_found of
                              None \<Rightarrow> found
                            | Some pf \<Rightarrow> if pf \<noteq> [] then found @ pf else found)
              in scan_entire_module_loop finditer pattern max_address page_address1 found1 p1))
      else Some (Inr found, p))"

definition scan_entire_module ::
  "(bytes \<Rightarrow> bytes \<Rightarrow> nat list) \<Rightarrow> process \<Rightarrow> module_info \<Rightarrow> bytes
     \<Rightarrow> ((error + int list) \<times> process) option" where
  "scan_entire_module finditer p modul pattern =
     (let base_address = lpBaseOfDll modul;
          max_address = lpBaseOfDll modul + SizeOfImage modul
      in scan_entire_module_loop finditer pattern max_address base_address [] p)"

text \<open>
  \<open>pattern_scan\<close> in two steps: \<open>found_addresses\<close> is the value of the variable of that
  name after the \<open>if module: ... else: ...\<close> statement, and \<open>pattern_scan\<close> applies the
  final \<open>if\<close> chain to it. A module name that is \<open>None\<close> or empty is falsy; a name that
  pymem does not know gives \<open>None\<close> for the module, whose attribute access raises.
  The message of \<open>PatternMultipleResults\<close> is kept as the two values it is formatted
  from, the number of results and the pattern.
\<close>

datatype scan_result = Address int | Addresses "int list"

definition found_addresses ::
  "(bytes \<Rightarrow> bytes \<Rightarrow> nat list) \<Rightarrow> process \<Rightarrow> bytes \<Rightarrow> string option \<Rightarrow> bool
     \<Rightarrow> ((error + int list) \<times> process) option" where
  "found_addresses finditer p pattern module_name return_multiple =
     (case module_name of
        Some (c # cs) \<Rightarrow>
          (case module_from_name p (c # cs) of
             None \<Rightarrow> Some (Inl AttributeError, p)
           | Some m \<Rightarrow> scan_entire_module finditer p m pattern)
      | _ \<Rightarrow> scan_all_from finditer (process_base p) p pattern return_multiple)"

definition pattern_scan ::
  "(bytes \<Rightarrow> bytes \<Rightarrow> nat list) \<Rightarrow> process \<Rightarrow> bytes \<Rightarrow> string option \<Rightarrow> bool
     \<Rightarrow> ((error + scan_result) \<times> process) option" where
  "pattern_scan finditer p pattern module_name return_multiple =
     (case found_addresses finditer p pattern module_name return_multiple of
        None \<Rightarrow> None
      | Some (Inl e, p1) \<Rightarrow> Some (Inl e, p1)
      | Some (Inr found, p1) \<Rightarrow>
          (if length found = 0 then Some (Inl (PatternFailed pattern), p1)
           else if length found > 1 \<and> \<not> return_multiple
             then Some (Inl (PatternMultipleResults (length found) pattern), p1)
           else if return_multiple then Some (Inr (Addresses found), p1)
           else (case found of
                   [] \<Rightarrow> Some (Inl IndexError, p1)
                 | a # _ \<Rightarrow> Some (Inr (Address a), p1))))"

section \<open>The mouse handler\<close>

text \<open>
  \<open>mouse_handler.py\<close>: the client owns a window handle, the hook that stores the mouse
  position and the lazily created click lock. \<open>client_to_screen\<close> answers \<open>None\<close> where
  \<open>user32.ClientToScreen\<close> returns 0; \<open>write_mouse_position\<close> is the hook handler's
  coroutine, which may raise. The hook write, every window message and every sleep are
  appended to \<open>events\<close>. \<open>click_lock\<close> is \<open>None\<close> before the first click, then
  \<open>Some locked\<close>. One invocation is modelled on its own: a click that finds the lock
  held would wait for another coroutine to release it, which is the result \<open>None\<close>.
\<close>

datatype send_method = PostMessageW | SendMessageW

datatype ui_event =
    WriteMousePosition int int
  | Message send_method int int int int
  | Sleep real

record 'r client =
  window_handle :: int
  client_to_screen :: "int \<Rightarrow> int \<Rightarrow> (int \<times> int) option"
  write_mouse_position :: "int \<Rightarrow> int \<Rightarrow> error + 'r"
  click_lock :: "bool option"
  events :: "ui_event list"

definition log_event :: "ui_event \<Rightarrow> 'r client \<Rightarrow> 'r client" where
  "log_event e c = c\<lparr>events := events c @ [e]\<rparr>"

definition set_mouse_position ::
  "'r client \<Rightarrow> int \<Rightarrow> int \<Rightarrow> bool \<Rightarrow> bool \<Rightarrow> (error + 'r) \<times> 'r client" where
  "set_mouse_position c x y convert_from_client use_post =
     (let send_method = (if use_post then PostMessageW else SendMessageW) in
      case (if convert_from_client
            then (case client_to_screen c x y of
                    None \<Rightarrow> Inl (RuntimeError ''Client to screen conversion failed'')
                  | Some point \<Rightarrow> Inr point)
            else Inr (x, y)) of
        Inl e \<Rightarrow> (Inl e, c)
      | Inr (x1, y1) \<Rightarrow>
          (let c1 = log_event (WriteMousePosition x1 y1) c in
           case write_mouse_position c1 x1 y1 of
             Inl e \<Rightarrow> (Inl e, c1)
           | Inr res \<Rightarrow>
               (Inr res, log_event (Message send_method (window_handle c1) 0x200 0 0) c1)))"

definition click ::
  "'r client \<Rightarrow> int \<Rightarrow> int \<Rightarrow> bool \<Rightarrow> real \<Rightarrow> bool \<Rightarrow> ((error + unit) \<times> 'r client) option" where
  "click c x y right_click sleep_duration use_post =
     (let button_down_message = (if right_click then 0x204 else 0x201);
          send_method = (if use_post then PostMessageW else SendMessageW);
          c0 = (if click_lock c = None then c\<lparr>click_lock := Some False\<rparr> else c)
      in if click_lock c0 = Some True then None
         else
           (let c1 = c0\<lparr>click_lock := Some True\<rparr> in
            case set_mouse_position c1 x y True False of
              (Inl e, c2) \<Rightarrow> Some (Inl e, c2\<lparr>click_lock := Some False\<rparr>)
            | (Inr res, c2) \<Rightarrow>
                (let c3 = log_event
                            (Message send_method (window_handle c2) button_down_message 1 0) c2;
                     c4 = (if sleep_duration > 0 then log_event (Sleep sleep_duration) c3 else c3);
                     c5 = log_event
                            (Message send_method (window_handle c4) (button_down_message + 1) 0 0)
                            c4
                 in Some (Inr (), c5\<lparr>click_lock := Some False\<rparr>))))"

section \<open>The course of a scan, described region by region\<close>

text \<open>
  What one visit of the cursor to address \<open>a\<close> amounts to: whether the region found
  there passes both checks of the page scan (\<open>eligible\<close>), whether the visit raises
  nothing (\<open>region_ok\<close>), where the cursor goes next (\<open>region_end\<close>), which calls
  the visit makes (\<open>region_calls\<close>) and which addresses it reports
  (\<open>region_matches\<close>).
\<close>

definition eligible :: "mbi \<Rightarrow> bool" where
  "eligible m \<longleftrightarrow> state m = MEM_COMMIT \<and> protect m \<in> set allowed_protections"

definition region_ok :: "process \<Rightarrow> int \<Rightarrow> bool" where
  "region_ok p a =
     (case virtual_query p a of
        None \<Rightarrow> False
      | Some m \<Rightarrow> \<not> eligible m \<or> mem_read (memory p) a (nat (RegionSize m)) \<noteq> None)"

definition region_end :: "process \<Rightarrow> int \<Rightarrow> int" where
  "region_end p a =
     (case virtual_query p a of
        None \<Rightarrow> a
      | Some m \<Rightarrow> BaseAddress m + RegionSize m)"

definition region_calls :: "process \<Rightarrow> int \<Rightarrow> os_call list" where
  "region_calls p a =
     QueryRegion a #
     (case virtual_query p a of
        None \<Rightarrow> []
      | Some m \<Rightarrow> if eligible m then [ReadMemory a (nat (RegionSize m))] else [])"

definition region_matches ::
  "(bytes \<Rightarrow> bytes \<Rightarrow> nat list) \<Rightarrow> process \<Rightarrow> bytes \<Rightarrow> int \<Rightarrow> int list" where
  "region_matches finditer p pattern a =
     (case virtual_query p a of
        None \<Rightarrow> []
      | Some m \<Rightarrow>
          if eligible m then
            (case mem_read (memory p) a (nat (RegionSize m)) of
               None \<Rightarrow> []
             | Some page_bytes \<Rightarrow> map (\<lambda>start. a + int start) (finditer pattern page_bytes))
          else [])"

text \<open>
  \<open>visits p stop limit a cs\<close>: \<open>cs\<close> is the complete list of cursor positions of a
  scan that starts at \<open>a\<close>: each position is below \<open>limit\<close> and is scanned without an
  exception, the next position is the end of the region found at the previous one, and
  the list ends either at a position where \<open>stop\<close> holds or when the cursor is no
  longer below \<open>limit\<close>.
\<close>

fun visits :: "process \<Rightarrow> (int \<Rightarrow> bool) \<Rightarrow> int \<Rightarrow> int \<Rightarrow> int list \<Rightarrow> bool" where
  "visits p stop limit a [] = (\<not> a < limit)"
| "visits p stop limit a (c # cs) =
     (a < limit \<and> c = a \<and> region_ok p a \<and>
      (if stop a then cs = [] else visits p stop limit (region_end p a) cs))"

definition scan_all_post ::
  "(bytes \<Rightarrow> bytes \<Rightarrow> nat list) \<Rightarrow> bytes \<Rightarrow> bool \<Rightarrow> int \<Rightarrow> int list \<Rightarrow> process
     \<Rightarrow> (error + int list) \<times> process \<Rightarrow> bool" where
  "scan_all_post finditer pattern rm a found p0 y \<longleftrightarrow>
     (rm \<or> found = [] \<longrightarrow> (\<forall>fs p1. y = (Inr fs, p1) \<longrightarrow>
       (\<exists>cs. visits p0 (\<lambda>c. \<not> rm \<and> region_matches finditer p0 pattern c \<noteq> [])
               0x7FFFFFFF0000 a cs \<and>
        fs = found @ concat (map (region_matches finditer p0 pattern) cs) \<and>
        p1 = p0\<lparr>calls := calls p0 @ concat (map (region_calls p0) cs)\<rparr>)))"

definition scan_module_post ::
  "(bytes \<Rightarrow> bytes \<Rightarrow> nat list) \<Rightarrow> bytes \<Rightarrow> int \<Rightarrow> int \<Rightarrow> int list \<Rightarrow> process
     \<Rightarrow> (error + int list) \<times> process \<Rightarrow> bool" where
  "scan_module_post finditer pattern limit a found p0 y \<longleftrightarrow>
     (\<forall>fs p1. y = (Inr fs, p1) \<longrightarrow>
       (\<exists>cs. visits p0 (\<lambda>c. False) limit a cs \<and>
        fs = found @ concat (map (region_matches finditer p0 pattern) cs) \<and>
        p1 = p0\<lparr>calls := calls p0 @ concat (map (region_calls p0) cs)\<rparr>))"

section \<open>Concrete data for the examples\<close>

text \<open>
  For a pattern without regular-expression metacharacters \<open>re.finditer\<close> yields the
  leftmost occurrences that do not overlap; \<open>literal_finditer\<close> lists their offsets.
  After a match the next \<open>length pattern - 1\<close> positions are skipped; the empty pattern
  matches at every position, the end included.
\<close>

fun literal_matches :: "bytes \<Rightarrow> nat \<Rightarrow> nat \<Rightarrow> bytes \<Rightarrow> nat list" where
  "literal_matches pattern skip off [] = (if pattern = [] \<and> skip = 0 then [off] else [])"
| "literal_matches pattern skip off (b # bs) =
     (if skip = 0 \<and> take (length pattern) (b # bs) = pattern
      then off # literal_matches pattern (length pattern - 1) (off + 1) bs
      else literal_matches pattern (skip - 1) (off + 1) bs)"

definition literal_finditer :: "bytes \<Rightarrow> bytes \<Rightarrow> nat list" where
  "literal_finditer pattern page_bytes = literal_matches pattern 0 0 page_bytes"

text \<open>
  A small process: eight mapped bytes \<open>41 42 41 42 00 41 42 00\<close> at \<open>0x10000\<close>, in two
  committed regions of four bytes each, free space below and above, and one module
  that covers the two regions.
\<close>

definition demo_memory :: "int \<rightharpoonup> byte" where
  "demo_memory =
     (\<lambda>a. if 0x10000 \<le> a \<and> a < 0x10008
          then Some ([0x41, 0x42, 0x41, 0x42, 0x00, 0x41, 0x42, 0x00] ! nat (a - 0x10000))
          else None)"

definition demo_regions :: "int \<rightharpoonup> mbi" where
  "demo_regions =
     (\<lambda>a. if a < 0 then None
          else if a < 0x10000 then
            Some \<lparr>BaseAddress = 0, RegionSize = 0x10000, state = MEM_FREE, protect = PAGE_NOACCESS\<rparr>
          else if a < 0x10004 then
            Some \<lparr>BaseAddress = 0x10000, RegionSize = 4, state = MEM_COMMIT,
                  protect = PAGE_EXECUTE_READ\<rparr>
          else if a < 0x10008 then
            Some \<lparr>BaseAddress = 0x10004, RegionSize = 4, state = MEM_COMMIT,
                  protect = PAGE_READWRITE\<rparr>
          else if a < 0x7FFFFFFF0000 then
            Some \<lparr>BaseAddress = 0x10008, RegionSize = 0x7FFFFFFDFFF8, state = MEM_FREE,
                  protect = PAGE_NOACCESS\<rparr>
          else None)"

definition demo_process :: process where
  "demo_process =
     \<lparr>process_base = 0x10000,
      module_from_name = [''game.exe'' \<mapsto> \<lparr>lpBaseOfDll = 0x10000, SizeOfImage = 8\<rparr>],
      virtual_query = demo_regions,
      memory = demo_memory,
      running = True,
      calls = []\<rparr>"

text \<open>
  A stand-in for \<open>struct\<close> on the integer formats of standard size, little-endian,
  and a two-entry type table.
\<close>

datatype int_format = Fmt_b | Fmt_B | Fmt_h | Fmt_H | Fmt_i | Fmt_I | Fmt_q | Fmt_Q

fun fmt_size :: "int_format \<Rightarrow> nat" where
  "fmt_size Fmt_b = 1" | "fmt_size Fmt_B = 1"
| "fmt_size Fmt_h = 2" | "fmt_size Fmt_H = 2"
| "fmt_size Fmt_i = 4" | "fmt_size Fmt_I = 4"
| "fmt_size Fmt_q = 8" | "fmt_size Fmt_Q = 8"

fun fmt_signed :: "int_format \<Rightarrow> bool" where
  "fmt_signed Fmt_b = True" | "fmt_signed Fmt_B = False"
| "fmt_signed Fmt_h = True" | "fmt_signed Fmt_H = False"
| "fmt_signed Fmt_i = True" | "fmt_signed Fmt_I = False"
| "fmt_signed Fmt_q = True" | "fmt_signed Fmt_Q = False"

definition fmt_min :: "int_format \<Rightarrow> int" where
  "fmt_min f = (if fmt_signed f then - (2 ^ (8 * fmt_size f - 1)) else 0)"

definition fmt_max :: "int_format \<Rightarrow> int" where
  "fmt_max f = (if fmt_signed f then 2 ^ (8 * fmt_size f - 1) - 1 else 2 ^ (8 * fmt_size f) - 1)"

fun le_encode :: "nat \<Rightarrow> int \<Rightarrow> bytes" where
  "le_encode 0 v = []"
| "le_encode (Suc n) v = word_of_int v # le_encode n (v div 256)"

fun le_decode :: "bytes \<Rightarrow> int" where
  "le_decode [] = 0"
| "le_decode (b # bs) = uint b + 256 * le_decode bs"

definition int_struct :: "(int_format, int) struct_module" where
  "int_struct =
     \<lparr>calcsize = fmt_size,
      pack = (\<lambda>f v. if fmt_min f \<le> v \<and> v \<le> fmt_max f
                     then Some (le_encode (fmt_size f) v) else None),
      unpack = (\<lambda>f data. if length data = fmt_size f
                          then Some (if fmt_signed f \<and> fmt_max f < le_decode data
                                     then le_decode data - 2 ^ (8 * fmt_size f)
                                     else le_decode data)
                          else None)\<rparr>"

definition demo_type_format_dict :: "string \<rightharpoonup> int_format" where
  "demo_type_format_dict = [''int'' \<mapsto> Fmt_i, ''unsigned char'' \<mapsto> Fmt_B]"

definition demo_client :: "unit client" where
  "demo_client =
     \<lparr>window_handle = 7,
      client_to_screen = (\<lambda>x y. Some (x + 100, y + 200)),
      write_mouse_position = (\<lambda>x y. Inr ()),
      click_lock = None,
      events = []\<rparr>"



section \<open>The typed codec\<close>

text \<open>
  Modelled from the spec: the type-name table \<open>type_format_dict\<close> and the encoding
  behind it, which \<open>memory_reader.py\<close> imports and does not define. The spec's typed
  value is a tagged union over signed and unsigned integers of 8, 16, 32 and 64 bits,
  32-bit and 64-bit IEEE-754 floats and booleans, each with a fixed width and a
  little-endian layout. A float is kept as its IEEE-754 bit pattern. \<open>encode\<close> and
  \<open>decode\<close> are the spec's two directions; \<open>spec_struct\<close> packages them as the three
  functions the reader calls, refusing a value that is not of the kind and range of the
  format and a byte string that is not of the format's width. The spec lists the kinds
  of types and not their identifiers; \<open>spec_type_format_dict\<close> uses C type names.
\<close>

datatype struct_format = Fmt_int int_format | Fmt_f | Fmt_d | Fmt_bool

datatype typed_value = IntValue int | Float32 "32 word" | Float64 "64 word" | BoolValue bool

fun representable :: "struct_format \<Rightarrow> typed_value \<Rightarrow> bool" where
  "representable (Fmt_int f) (IntValue v) = (fmt_min f \<le> v \<and> v \<le> fmt_max f)"
| "representable Fmt_f (Float32 w) = True"
| "representable Fmt_d (Float64 w) = True"
| "representable Fmt_bool (BoolValue b) = True"
| "representable _ _ = False"

fun spec_calcsize :: "struct_format \<Rightarrow> nat" where
  "spec_calcsize (Fmt_int f) = fmt_size f"
| "spec_calcsize Fmt_f = 4"
| "spec_calcsize Fmt_d = 8"
| "spec_calcsize Fmt_bool = 1"

fun encode :: "struct_format \<Rightarrow> typed_value \<Rightarrow> bytes" where
  "encode (Fmt_int f) (IntValue v) = le_encode (fmt_size f) v"
| "encode Fmt_f (Float32 w) = le_encode 4 (uint w)"
| "encode Fmt_d (Float64 w) = le_encode 8 (uint w)"
| "encode Fmt_bool (BoolValue b) = [if b then 1 else 0]"
| "encode _ _ = []"

fun decode :: "struct_format \<Rightarrow> bytes \<Rightarrow> typed_value" where
  "decode (Fmt_int f) data =
     IntValue (if fmt_signed f \<and> fmt_max f < le_decode data
               then le_decode data - 2 ^ (8 * fmt_size f)
               else le_decode data)"
| "decode Fmt_f data = Float32 (word_of_int (le_decode data))"
| "decode Fmt_d data = Float64 (word_of_int (le_decode data))"
| "decode Fmt_bool data = BoolValue (le_decode data \<noteq> 0)"

definition spec_struct :: "(struct_format, typed_value) struct_module" where
  "spec_struct =
     \<lparr>calcsize = spec_calcsize,
      pack = (\<lambda>f v. if representable f v then Some (encode f v) else None),
      unpack = (\<lambda>f data. if length data = spec_calcsize f then Some (decode f data) else None)\<rparr>"

definition spec_type_format_dict :: "string \<rightharpoonup> struct_format" where
  "spec_type_format_dict =
     [''signed char'' \<mapsto> Fmt_int Fmt_b, ''unsigned char'' \<mapsto> Fmt_int Fmt_B,
      ''short'' \<mapsto> Fmt_int Fmt_h, ''unsigned short'' \<mapsto> Fmt_int Fmt_H,
      ''int'' \<mapsto> Fmt_int Fmt_i, ''unsigned int'' \<mapsto> Fmt_int Fmt_I,
      ''long long'' \<mapsto> Fmt_int Fmt_q, ''unsigned long long'' \<mapsto> Fmt_int Fmt_Q,
      ''float'' \<mapsto> Fmt_f, ''double'' \<mapsto> Fmt_d, ''bool'' \<mapsto> Fmt_bool]"

text \<open>
  The comparison \<open>==\<close> on typed values. On floats it is IEEE-754 equality read off the
  bit pattern: a NaN (exponent field all ones, fraction not zero) is equal to nothing,
  itself included; the two zeros are equal; any other two floats are equal exactly when
  their bit patterns are. An integer and a boolean compare as Python's \<open>int\<close> and
  \<open>bool\<close> do; a float is only compared with a float of its own width (\<open>None\<close>
  otherwise).
\<close>

definition is_nan32 :: "32 word \<Rightarrow> bool" where
  "is_nan32 w \<longleftrightarrow> (uint w div 2 ^ 23) mod 2 ^ 8 = 255 \<and> uint w mod 2 ^ 23 \<noteq> 0"

definition is_nan64 :: "64 word \<Rightarrow> bool" where
  "is_nan64 w \<longleftrightarrow> (uint w div 2 ^ 52) mod 2 ^ 11 = 2047 \<and> uint w mod 2 ^ 52 \<noteq> 0"

definition is_zero32 :: "32 word \<Rightarrow> bool" where
  "is_zero32 w \<longleftrightarrow> uint w mod 2 ^ 31 = 0"

definition is_zero64 :: "64 word \<Rightarrow> bool" where
  "is_zero64 w \<longleftrightarrow> uint w mod 2 ^ 63 = 0"

fun is_nan :: "typed_value \<Rightarrow> bool" where
  "is_nan (Float32 w) = is_nan32 w"
| "is_nan (Float64 w) = is_nan64 w"
| "is_nan _ = False"

fun value_eq :: "typed_value \<Rightarrow> typed_value \<Rightarrow> bool option" where
  "value_eq (IntValue a) (IntValue b) = Some (a = b)"
| "value_eq (BoolValue a) (BoolValue b) = Some (a = b)"
| "value_eq (IntValue a) (BoolValue b) = Some (a = (if b then 1 else 0))"
| "value_eq (BoolValue a) (IntValue b) = Some ((if a then 1 else 0) = b)"
| "value_eq (Float32 a) (Float32 b) =
     Some (\<not> is_nan32 a \<and> \<not> is_nan32 b \<and> (a = b \<or> is_zero32 a \<and> is_zero32 b))"
| "value_eq (Float64 a) (Float64 b) =
     Some (\<not> is_nan64 a \<and> \<not> is_nan64 b \<and> (a = b \<or> is_zero64 a \<and> is_zero64 b))"
| "value_eq _ _ = None"

section \<open>Properties of the scanner's loops\<close>

text \<open>
  The region-wise description only looks at the region table and the memory of the
  process, so logging calls does not change it.
\<close>

lemma region_calls_upd [simp]: "region_calls (p\<lparr>calls := cl\<rparr>) = region_calls p"
  by (simp add: region_calls_def fun_eq_iff)
lemma region_ok_upd [simp]: "region_ok (p\<lparr>calls := cl\<rparr>) = region_ok p"
  by (auto simp add: region_ok_def fun_eq_iff split: option.splits)
lemma region_end_upd [simp]: "region_end (p\<lparr>calls := cl\<rparr>) = region_end p"
  by (simp add: region_end_def fun_eq_iff)
lemma region_matches_upd [simp]:
  "region_matches finditer (p\<lparr>calls := cl\<rparr>) = region_matches finditer p"
  by (auto simp add: region_matches_def fun_eq_iff split: option.splits)
lemma visits_upd [simp]: "visits (p\<lparr>calls := cl\<rparr>) stop limit a cs = visits p stop limit a cs"
  by (induction cs arbitrary: a) simp_all

lemma scan_page_ok:
  "region_ok p a \<Longrightarrow>
   \<exists>pf. scan_page_return_all finditer p a pattern =
          (Inr (region_end p a, pf), p\<lparr>calls := calls p @ region_calls p a\<rparr>) \<and>
        (case pf of None \<Rightarrow> found | Some pf \<Rightarrow> if pf \<noteq> [] then found @ pf else found)
          = found @ region_matches finditer p pattern a"
  by (auto simp add: scan_page_return_all_def region_ok_def region_end_def region_calls_def
      region_matches_def eligible_def log_call_def Let_def split: option.splits)

lemma scan_page_Inr:
  "scan_page_return_all finditer p a pattern = (Inr (nxt, pf), p1) \<Longrightarrow> region_ok p a"
  by (auto simp add: scan_page_return_all_def region_ok_def eligible_def log_call_def Let_def
      split: option.splits if_splits)


lemma loop_all_complete:
  "visits p (\<lambda>c. \<not> rm \<and> region_matches finditer p pattern c \<noteq> []) 0x7FFFFFFF0000 a cs \<Longrightarrow>
   rm \<or> found = [] \<Longrightarrow>
   scan_all_from_loop finditer pattern rm a found (p\<lparr>calls := cl\<rparr>) =
     Some (Inr (found @ concat (map (region_matches finditer p pattern) cs)),
           p\<lparr>calls := cl @ concat (map (region_calls p) cs)\<rparr>)"
proof (induction cs arbitrary: a found cl)
  case Nil
  then show ?case by (subst scan_all_from_loop.simps) simp
next
  case (Cons c cs)
  from Cons.prems have a: "a < 0x7FFFFFFF0000" "c = a" "region_ok p a" by simp_all
  from a(3) have ok: "region_ok (p\<lparr>calls := cl\<rparr>) a" by simp
  from scan_page_ok [OF ok, of finditer pattern found]
  obtain pf where pf:
    "scan_page_return_all finditer (p\<lparr>calls := cl\<rparr>) a pattern =
       (Inr (region_end p a, pf), p\<lparr>calls := cl @ region_calls p a\<rparr>)"
    "(case pf of None \<Rightarrow> found | Some pf \<Rightarrow> if pf \<noteq> [] then found @ pf else found)
       = found @ region_matches finditer p pattern a"
    by auto
  show ?case
  proof (cases "\<not> rm \<and> region_matches finditer p pattern a \<noteq> []")
    case True
    with Cons.prems a have "cs = []" "found = []" by auto
    with True a pf show ?thesis
      by (subst scan_all_from_loop.simps) simp
  next
    case False
    with Cons.prems a have v: "visits p (\<lambda>c. \<not> rm \<and> region_matches finditer p pattern c \<noteq> [])
        0x7FFFFFFF0000 (region_end p a) cs" by auto
    from False Cons.prems have inv: "rm \<or> found @ region_matches finditer p pattern a = []" by auto
    from Cons.IH [OF v inv, of "cl @ region_calls p a"] False a pf Cons.prems(2) show ?thesis
      by (subst scan_all_from_loop.simps) auto
  qed
qed

lemma loop_all_sound_aux:
  assumes "scan_all_from_loop finditer pattern rm a found p0 = Some y"
  shows "scan_all_post finditer pattern rm a found p0 y"
proof (rule scan_all_from_loop.raw_induct [where P = scan_all_post, OF _ assms])
  fix loop finditer pattern rm a found p0 y
  assume IH: "\<And>finditer pattern rm a found p0 y.
           loop finditer pattern rm a found p0 = Some y \<Longrightarrow> scan_all_post finditer pattern rm a found p0 y"
    and body: "(if a < 0x7FFFFFFF0000 then
        (case scan_page_return_all finditer p0 a pattern of
           (Inl e, p1) \<Rightarrow> Some (Inl e, p1)
         | (Inr (next_region1, page_found), p1) \<Rightarrow>
             (let found1 = (case page_found of
                              None \<Rightarrow> found
                            | Some pf \<Rightarrow> if pf \<noteq> [] then found @ pf else found)
              in if \<not> rm \<and> found1 \<noteq> [] then Some (Inr found1, p1)
                 else loop finditer pattern rm next_region1 found1 p1))
      else Some (Inr found, p0)) = Some y"
  show "scan_all_post finditer pattern rm a found p0 y"
    unfolding scan_all_post_def
  proof (intro impI allI)
    fix fs p1
    assume inv: "rm \<or> found = []" and y: "y = (Inr fs, p1)"
    let ?stop = "\<lambda>c. \<not> rm \<and> region_matches finditer p0 pattern c \<noteq> []"
    show "\<exists>cs. visits p0 ?stop 0x7FFFFFFF0000 a cs \<and>
        fs = found @ concat (map (region_matches finditer p0 pattern) cs) \<and>
        p1 = p0\<lparr>calls := calls p0 @ concat (map (region_calls p0) cs)\<rparr>"
    proof (cases "a < 0x7FFFFFFF0000")
      case False
      with body y have "fs = found" "p1 = p0" by auto
      with False show ?thesis by (intro exI [of _ "[]"]) simp
    next
      case True
      from body True y obtain nxt pf q where sp:
        "scan_page_return_all finditer p0 a pattern = (Inr (nxt, pf), q)"
        by (auto split: prod.splits sum.splits if_splits)
      then have ok: "region_ok p0 a" by (rule scan_page_Inr)
      from scan_page_ok [OF ok, of finditer pattern found] sp
      have nxt: "nxt = region_end p0 a" and q: "q = p0\<lparr>calls := calls p0 @ region_calls p0 a\<rparr>"
        and acc: "(case pf of None \<Rightarrow> found | Some pf \<Rightarrow> if pf \<noteq> [] then found @ pf else found)
                   = found @ region_matches finditer p0 pattern a"
        by auto
      show ?thesis
      proof (cases "?stop a")
        case stop: True
        with inv have f: "found = []" by simp
        from body True sp acc stop y have "fs = found @ region_matches finditer p0 pattern a" "p1 = q"
          by auto
        with True ok stop q show ?thesis by (intro exI [of _ "[a]"]) simp
      next
        case nostop: False
        with inv have inv': "rm \<or> found @ region_matches finditer p0 pattern a = []" by auto
        from body True sp acc nostop inv have
          "loop finditer pattern rm nxt (found @ region_matches finditer p0 pattern a) q = Some y"
          by auto
        from IH [OF this] inv' y obtain cs where cs:
          "visits q (\<lambda>c. \<not> rm \<and> region_matches finditer q pattern c \<noteq> []) 0x7FFFFFFF0000 nxt cs"
          "fs = (found @ region_matches finditer p0 pattern a) @ concat (map (region_matches finditer q pattern) cs)"
          "p1 = q\<lparr>calls := calls q @ concat (map (region_calls q) cs)\<rparr>"
          unfolding scan_all_post_def by blast
        with True ok nostop q nxt show ?thesis
          by (intro exI [of _ "a # cs"]) auto
      qed
    qed
  qed
qed


lemma loop_module_complete:
  "visits p (\<lambda>c. False) limit a cs \<Longrightarrow>
   scan_entire_module_loop finditer pattern limit a found (p\<lparr>calls := cl\<rparr>) =
     Some (Inr (found @ concat (map (region_matches finditer p pattern) cs)),
           p\<lparr>calls := cl @ concat (map (region_calls p) cs)\<rparr>)"
proof (induction cs arbitrary: a found cl)
  case Nil
  then show ?case by (subst scan_entire_module_loop.simps) simp
next
  case (Cons c cs)
  from Cons.prems have a: "a < limit" "c = a" "region_ok p a"
    and v: "visits p (\<lambda>c. False) limit (region_end p a) cs" by simp_all
  from a(3) have ok: "region_ok (p\<lparr>calls := cl\<rparr>) a" by simp
  from scan_page_ok [OF ok, of finditer pattern found]
  obtain pf where pf:
    "scan_page_return_all finditer (p\<lparr>calls := cl\<rparr>) a pattern =
       (Inr (region_end p a, pf), p\<lparr>calls := cl @ region_calls p a\<rparr>)"
    "(case pf of None \<Rightarrow> found | Some pf \<Rightarrow> if pf \<noteq> [] then found @ pf else found)
       = found @ region_matches finditer p pattern a"
    by auto
  from Cons.IH [OF v, of "found @ region_matches finditer p pattern a" "cl @ region_calls p a"] a pf
  show ?case
    by (subst scan_entire_module_loop.simps) simp
qed

lemma loop_module_sound_aux:
  assumes "scan_entire_module_loop finditer pattern limit a found p0 = Some y"
  shows "scan_module_post finditer pattern limit a found p0 y"
proof (rule scan_entire_module_loop.raw_induct [where P = scan_module_post, OF _ assms])
  fix loop finditer pattern limit a found p0 y
  assume IH: "\<And>finditer pattern limit a found p0 y.
           loop finditer pattern limit a found p0 = Some y \<Longrightarrow>
           scan_module_post finditer pattern limit a found p0 y"
    and body: "(if a < limit then
        (case scan_page_return_all finditer p0 a pattern of
           (Inl e, p1) \<Rightarrow> Some (Inl e, p1)
         | (Inr (page_address1, page_found), p1) \<Rightarrow>
             (let found1 = (case page_found of
                              None \<Rightarrow> found
                            | Some pf \<Rightarrow> if pf \<noteq> [] then found @ pf else found)
              in loop finditer pattern limit page_address1 found1 p1))
      else Some (Inr found, p0)) = Some y"
  show "scan_module_post finditer pattern limit a found p0 y"
    unfolding scan_module_post_def
  proof (intro impI allI)
    fix fs p1
    assume y: "y = (Inr fs, p1)"
    show "\<exists>cs. visits p0 (\<lambda>c. False) limit a cs \<and>
        fs = found @ concat (map (region_matches finditer p0 pattern) cs) \<and>
        p1 = p0\<lparr>calls := calls p0 @ concat (map (region_calls p0) cs)\<rparr>"
    proof (cases "a < limit")
      case False
      with body y have "fs = found" "p1 = p0" by auto
      with False show ?thesis by (intro exI [of _ "[]"]) simp
    next
      case True
      from body True y obtain nxt pf q where sp:
        "scan_page_return_all finditer p0 a pattern = (Inr (nxt, pf), q)"
        by (auto split: prod.splits sum.splits if_splits)
      then have ok: "region_ok p0 a" by (rule scan_page_Inr)
      from scan_page_ok [OF ok, of finditer pattern found] sp
      have nxt: "nxt = region_end p0 a" and q: "q = p0\<lparr>calls := calls p0 @ region_calls p0 a\<rparr>"
        and acc: "(case pf of None \<Rightarrow> found | Some pf \<Rightarrow> if pf \<noteq> [] then found @ pf else found)
                   = found @ region_matches finditer p0 pattern a"
        by auto
      from body True sp acc have
        "loop finditer pattern limit nxt (found @ region_matches finditer p0 pattern a) q = Some y"
        by auto
      from IH [OF this] y obtain cs where cs:
        "visits q (\<lambda>c. False) limit nxt cs"
        "fs = (found @ region_matches finditer p0 pattern a) @ concat (map (region_matches finditer q pattern) cs)"
        "p1 = q\<lparr>calls := calls q @ concat (map (region_calls q) cs)\<rparr>"
        unfolding scan_module_post_def by blast
      with True ok q nxt show ?thesis
        by (intro exI [of _ "a # cs"]) auto
    qed
  qed
qed


lemma visits_exists:
  assumes adv: "\<And>c. a \<le> c \<Longrightarrow> c < limit \<Longrightarrow> region_ok p c \<and> c < region_end p c"
  shows "\<exists>cs. visits p stop limit a cs"
  using adv
proof (induction "nat (limit - a)" arbitrary: a rule: less_induct)
  case less
  show ?case
  proof (cases "a < limit")
    case False
    then show ?thesis by (intro exI [of _ "[]"]) simp
  next
    case True
    with less.prems [of a] have ok: "region_ok p a" and up: "a < region_end p a" by auto
    show ?thesis
    proof (cases "stop a")
      case True
      with \<open>a < limit\<close> ok show ?thesis by (intro exI [of _ "[a]"]) simp
    next
      case False
      have "nat (limit - region_end p a) < nat (limit - a)" using up True by simp
      moreover have "\<And>c. region_end p a \<le> c \<Longrightarrow> c < limit \<Longrightarrow> region_ok p c \<and> c < region_end p c"
        using less.prems up by simp
      ultimately obtain cs where "visits p stop limit (region_end p a) cs"
        using less.hyps by blast
      with True ok False show ?thesis by (intro exI [of _ "a # cs"]) simp
    qed
  qed
qed

text \<open>
  Both loops, characterised: a scan returns a list exactly when its cursor positions
  form a complete visit list, and then the list of matches and the calls made are those
  of the visited positions, in order. Where every region below the limit can be scanned
  and ends above the address that was queried, the scan returns.
\<close>

lemma scan_all_from_iff:
  "scan_all_from finditer a p pattern rm = Some (Inr found, p1) \<longleftrightarrow>
   (\<exists>cs. visits p (\<lambda>c. \<not> rm \<and> region_matches finditer p pattern c \<noteq> []) 0x7FFFFFFF0000 a cs \<and>
         found = concat (map (region_matches finditer p pattern) cs) \<and>
         p1 = p\<lparr>calls := calls p @ concat (map (region_calls p) cs)\<rparr>)"
  (is "?lhs \<longleftrightarrow> ?rhs")
proof
  assume ?lhs
  then have "scan_all_from_loop finditer pattern rm a [] p = Some (Inr found, p1)"
    by (simp add: scan_all_from_def)
  from loop_all_sound_aux [OF this] show ?rhs
    by (simp add: scan_all_post_def)
next
  assume ?rhs
  then obtain cs where cs:
    "visits p (\<lambda>c. \<not> rm \<and> region_matches finditer p pattern c \<noteq> []) 0x7FFFFFFF0000 a cs"
    "found = concat (map (region_matches finditer p pattern) cs)"
    "p1 = p\<lparr>calls := calls p @ concat (map (region_calls p) cs)\<rparr>"
    by blast
  from loop_all_complete [OF cs(1), of "[]" "calls p"] cs(2,3) show ?lhs
    by (simp add: scan_all_from_def)
qed

lemma scan_entire_module_iff:
  "scan_entire_module finditer p m pattern = Some (Inr found, p1) \<longleftrightarrow>
   (\<exists>cs. visits p (\<lambda>c. False) (lpBaseOfDll m + SizeOfImage m) (lpBaseOfDll m) cs \<and>
         found = concat (map (region_matches finditer p pattern) cs) \<and>
         p1 = p\<lparr>calls := calls p @ concat (map (region_calls p) cs)\<rparr>)"
  (is "?lhs \<longleftrightarrow> ?rhs")
proof
  assume ?lhs
  then have "scan_entire_module_loop finditer pattern (lpBaseOfDll m + SizeOfImage m)
               (lpBaseOfDll m) [] p = Some (Inr found, p1)"
    by (simp add: scan_entire_module_def)
  from loop_module_sound_aux [OF this] show ?rhs
    by (simp add: scan_module_post_def)
next
  assume ?rhs
  then obtain cs where cs:
    "visits p (\<lambda>c. False) (lpBaseOfDll m + SizeOfImage m) (lpBaseOfDll m) cs"
    "found = concat (map (region_matches finditer p pattern) cs)"
    "p1 = p\<lparr>calls := calls p @ concat (map (region_calls p) cs)\<rparr>"
    by blast
  from loop_module_complete [OF cs(1), of finditer pattern "[]" "calls p"] cs(2,3) show ?lhs
    by (simp add: scan_entire_module_def)
qed

lemma scan_all_from_returns:
  assumes "\<And>c. a \<le> c \<Longrightarrow> c < 0x7FFFFFFF0000 \<Longrightarrow> region_ok p c \<and> c < region_end p c"
  shows "\<exists>found p1. scan_all_from finditer a p pattern rm = Some (Inr found, p1)"
proof -
  from visits_exists [of a "0x7FFFFFFF0000" p
      "\<lambda>c. \<not> rm \<and> region_matches finditer p pattern c \<noteq> []"] assms
  obtain cs where
    "visits p (\<lambda>c. \<not> rm \<and> region_matches finditer p pattern c \<noteq> []) 0x7FFFFFFF0000 a cs"
    by blast
  then show ?thesis
    using scan_all_from_iff [of finditer a p pattern rm] by blast
qed

lemma scan_entire_module_returns:
  assumes "\<And>c. lpBaseOfDll m \<le> c \<Longrightarrow> c < lpBaseOfDll m + SizeOfImage m \<Longrightarrow>
             region_ok p c \<and> c < region_end p c"
  shows "\<exists>found p1. scan_entire_module finditer p m pattern = Some (Inr found, p1)"
proof -
  from visits_exists [of "lpBaseOfDll m" "lpBaseOfDll m + SizeOfImage m" p "\<lambda>c. False"] assms
  obtain cs where
    "visits p (\<lambda>c. False) (lpBaseOfDll m + SizeOfImage m) (lpBaseOfDll m) cs"
    by blast
  then show ?thesis
    using scan_entire_module_iff [of finditer p m pattern] by blast
qed

section \<open>The example process, evaluated\<close>

lemma demo_fields:
  "process_base demo_process = 0x10000"
  "calls demo_process = []"
  "running demo_process = True"
  "memory demo_process = demo_memory"
  "virtual_query demo_process = demo_regions"
  "module_from_name demo_process ''game.exe'' = Some \<lparr>lpBaseOfDll = 0x10000, SizeOfImage = 8\<rparr>"
  by (simp_all add: demo_process_def)

lemma visits_prefix_no_stop:
  "visits p stop limit a (cs @ [c]) \<Longrightarrow> \<forall>x\<in>set cs. \<not> stop x"
proof (induction cs arbitrary: a)
  case Nil
  then show ?case by simp
next
  case (Cons x cs)
  then show ?case by (cases "stop a") auto
qed

lemma found_addresses_whole_process:
  "found_addresses finditer p pattern None rm = scan_all_from finditer (process_base p) p pattern rm"
  by (simp add: found_addresses_def)

lemma found_addresses_no_module:
  "module_name = None \<or> module_name = Some [] \<Longrightarrow>
   found_addresses finditer p pattern module_name rm =
     scan_all_from finditer (process_base p) p pattern rm"
  by (auto simp add: found_addresses_def)


lemma demo_whole_process_scan:
  assumes "visits demo_process
             (\<lambda>c. \<not> rm \<and> region_matches literal_finditer demo_process pattern c \<noteq> [])
             0x7FFFFFFF0000 0x10000 cs"
    and "concat (map (region_matches literal_finditer demo_process pattern) cs) = found"
    and "concat (map (region_calls demo_process) cs) = cl"
  shows "found_addresses literal_finditer demo_process pattern None rm =
           Some (Inr found, demo_process\<lparr>calls := cl\<rparr>)"
  using assms scan_all_from_iff [of literal_finditer "0x10000" demo_process pattern rm found
      "demo_process\<lparr>calls := cl\<rparr>"]
  by (simp only: found_addresses_whole_process demo_fields append_Nil) blast

lemma demo_scan_single:
  "found_addresses literal_finditer demo_process [0x00, 0x41] None False =
     Some (Inr [0x10004],
           demo_process\<lparr>calls := [QueryRegion 0x10000, ReadMemory 0x10000 4,
                                  QueryRegion 0x10004, ReadMemory 0x10004 4]\<rparr>)"
  by (rule demo_whole_process_scan [where cs = "[0x10000, 0x10004]"]; code_simp)

lemma demo_scan_ambiguous:
  "found_addresses literal_finditer demo_process [0x41, 0x42] None False =
     Some (Inr [0x10000, 0x10002],
           demo_process\<lparr>calls := [QueryRegion 0x10000, ReadMemory 0x10000 4]\<rparr>)"
  by (rule demo_whole_process_scan [where cs = "[0x10000]"]; code_simp)

lemma demo_scan_multiple:
  "found_addresses literal_finditer demo_process [0x41, 0x42] None True =
     Some (Inr [0x10000, 0x10002, 0x10005],
           demo_process\<lparr>calls := [QueryRegion 0x10000, ReadMemory 0x10000 4,
                                  QueryRegion 0x10004, ReadMemory 0x10004 4,
                                  QueryRegion 0x10008]\<rparr>)"
  by (rule demo_whole_process_scan [where cs = "[0x10000, 0x10004, 0x10008]"]; code_simp)

lemma demo_scan_nothing:
  "found_addresses literal_finditer demo_process [0x43] None False =
     Some (Inr [],
           demo_process\<lparr>calls := [QueryRegion 0x10000, ReadMemory 0x10000 4,
                                  QueryRegion 0x10004, ReadMemory 0x10004 4,
                                  QueryRegion 0x10008]\<rparr>)"
  by (rule demo_whole_process_scan [where cs = "[0x10000, 0x10004, 0x10008]"]; code_simp)


section \<open>Claims about byte-level I/O\<close>

text \<open>
  C5. When the pymem call of \<open>read_bytes\<close> or \<open>write_bytes\<close> fails, the result is
  \<open>ClientClosedError\<close> if the process no longer runs and otherwise \<open>MemoryReadError\<close>
  (for a read) or \<open>MemoryWriteError\<close> (for a write) with the requested address, and
  the liveness check comes after the failed call. When the call succeeds the result is
  the bytes read (or the memory written) and no liveness check is made at all.
\<close>

theorem read_write_failure_classification:
  "(mem_read (memory p) address sz = None \<longrightarrow>
      read_bytes p address sz =
        (Inl (if running p then MemoryReadError address else ClientClosedError),
         p\<lparr>calls := calls p @ [ReadMemory address sz, CheckRunning]\<rparr>)) \<and>
   (\<forall>data. mem_read (memory p) address sz = Some data \<longrightarrow>
      read_bytes p address sz = (Inr data, p\<lparr>calls := calls p @ [ReadMemory address sz]\<rparr>)) \<and>
   (mem_write (memory p) address bs = None \<longrightarrow>
      write_bytes p address bs =
        (Inl (if running p then MemoryWriteError address else ClientClosedError),
         p\<lparr>calls := calls p @ [WriteMemory address bs, CheckRunning]\<rparr>)) \<and>
   (\<forall>m. mem_write (memory p) address bs = Some m \<longrightarrow>
      write_bytes p address bs =
        (Inr (), p\<lparr>calls := calls p @ [WriteMemory address bs], memory := m\<rparr>))"
  by (simp add: read_bytes_def write_bytes_def is_running_def log_call_def)

lemma demo_mem_read:
  "mem_read demo_memory 0x10004 4 = Some [0x00, 0x41, 0x42, 0x00]"
  "mem_read demo_memory 0x20000 4 = None"
  "mem_write demo_memory 0x20000 [0x01] = None"
  by code_simp+

lemma demo_mem_write:
  "mem_write demo_memory 0x10007 [0x01] =
     Some (\<lambda>x. if 0x10007 \<le> x \<and> x < 0x10007 + int (length [0x01 :: byte])
               then Some ([0x01] ! nat (x - 0x10007)) else demo_memory x)"
proof -
  have "list_all (\<lambda>i. demo_memory (0x10007 + int i) \<noteq> None) [0..<length [0x01 :: byte]]"
    by code_simp
  then show ?thesis by (simp only: mem_write_def if_True)
qed

theorem read_write_failure_classification_witness:
  "read_bytes demo_process 0x20000 4 =
     (Inl (MemoryReadError 0x20000),
      demo_process\<lparr>calls := [ReadMemory 0x20000 4, CheckRunning]\<rparr>) \<and>
   read_bytes (demo_process\<lparr>running := False\<rparr>) 0x20000 4 =
     (Inl ClientClosedError,
      demo_process\<lparr>running := False, calls := [ReadMemory 0x20000 4, CheckRunning]\<rparr>) \<and>
   read_bytes demo_process 0x10004 4 =
     (Inr [0x00, 0x41, 0x42, 0x00], demo_process\<lparr>calls := [ReadMemory 0x10004 4]\<rparr>) \<and>
   write_bytes demo_process 0x20000 [0x01] =
     (Inl (MemoryWriteError 0x20000),
      demo_process\<lparr>calls := [WriteMemory 0x20000 [0x01], CheckRunning]\<rparr>) \<and>
   write_bytes (demo_process\<lparr>running := False\<rparr>) 0x20000 [0x01] =
     (Inl ClientClosedError,
      demo_process\<lparr>running := False, calls := [WriteMemory 0x20000 [0x01], CheckRunning]\<rparr>) \<and>
   fst (write_bytes demo_process 0x10007 [0x01]) = Inr () \<and>
   calls (snd (write_bytes demo_process 0x10007 [0x01])) = [WriteMemory 0x10007 [0x01]]"
  using read_write_failure_classification [of demo_process "0x20000" 4 "[0x01]"]
    read_write_failure_classification [of "demo_process\<lparr>running := False\<rparr>" "0x20000" 4
      "[0x01]"]
    read_write_failure_classification [of demo_process "0x10004" 4 "[]"]
    read_write_failure_classification [of demo_process "0x10007" 0 "[0x01]"]
  by (simp add: demo_fields demo_mem_read demo_mem_write)

section \<open>Claims about typed reads and writes\<close>

text \<open>
  C6. For a type name that the type table does not contain, \<open>read_typed\<close> and
  \<open>write_typed\<close> both fail with the \<open>ValueError\<close> that names the type, and the
  process is returned as it was: no call has been logged and the memory is the same.
\<close>

theorem unknown_type_fails_without_io:
  assumes "type_format_dict data_type = None"
  shows "read_typed type_format_dict struct p address data_type =
           (Inl (ValueError (data_type @ '' is not a valid data type'')), p) \<and>
         write_typed type_format_dict struct p address val data_type =
           (Inl (ValueError (data_type @ '' is not a valid data type'')), p)"
  using assms by (simp add: read_typed_def write_typed_def)

theorem unknown_type_fails_without_io_witness:
  "demo_type_format_dict ''integer'' = None \<and>
   read_typed demo_type_format_dict int_struct demo_process 0x10000 ''integer'' =
     (Inl (ValueError ''integer is not a valid data type''), demo_process) \<and>
   write_typed demo_type_format_dict int_struct demo_process 0x10000 5 ''integer'' =
     (Inl (ValueError ''integer is not a valid data type''), demo_process)"
proof -
  have h: "demo_type_format_dict ''integer'' = None"
    by (simp add: demo_type_format_dict_def)
  from unknown_type_fails_without_io [where type_format_dict = demo_type_format_dict
      and data_type = "''integer''" and struct = int_struct and p = demo_process
      and address = "0x10000" and val = 5, OF h] h
  show ?thesis by simp
qed

section \<open>Claims about the pattern scanner\<close>

text \<open>
  C3. When the region found at the cursor is not committed, or its protection is not one
  of execute-read, execute-read-write, read-write and read-only, the page scan returns
  no match list, moves the cursor to the region's base plus its size and has made the
  region query as its only call. A byte read is among the calls of a page scan exactly
  when the region passes both checks.
\<close>

theorem scan_page_skips_ineligible_region:
  assumes "virtual_query p address = Some m"
  shows "(state m \<noteq> MEM_COMMIT \<or>
          protect m \<notin> {PAGE_EXECUTE_READ, PAGE_EXECUTE_READWRITE, PAGE_READWRITE, PAGE_READONLY}
          \<longrightarrow> scan_page_return_all finditer p address pattern =
                (Inr (BaseAddress m + RegionSize m, None),
                 p\<lparr>calls := calls p @ [QueryRegion address]\<rparr>)) \<and>
         ((\<exists>a n. ReadMemory a n \<in> set (drop (length (calls p))
                     (calls (snd (scan_page_return_all finditer p address pattern)))))
          \<longleftrightarrow> state m = MEM_COMMIT \<and>
              protect m \<in> {PAGE_EXECUTE_READ, PAGE_EXECUTE_READWRITE, PAGE_READWRITE, PAGE_READONLY})"
  using assms
  by (auto simp add: scan_page_return_all_def log_call_def allowed_protections_def Let_def
      split: option.splits)

lemma demo_regions_values:
  "demo_regions 0x10008 =
     Some \<lparr>BaseAddress = 0x10008, RegionSize = 0x7FFFFFFDFFF8, state = MEM_FREE,
           protect = PAGE_NOACCESS\<rparr>"
  "demo_regions 0x10004 =
     Some \<lparr>BaseAddress = 0x10004, RegionSize = 4, state = MEM_COMMIT, protect = PAGE_READWRITE\<rparr>"
  by (simp_all add: demo_regions_def)

theorem scan_page_skips_ineligible_region_witness:
  "scan_page_return_all literal_finditer demo_process 0x10008 [0x41, 0x42] =
     (Inr (0x7FFFFFFF0000, None), demo_process\<lparr>calls := [QueryRegion 0x10008]\<rparr>) \<and>
   (\<exists>a n. ReadMemory a n \<in> set
      (calls (snd (scan_page_return_all literal_finditer demo_process 0x10004 [0x41, 0x42]))))"
proof -
  have q1: "virtual_query demo_process 0x10008 =
      Some \<lparr>BaseAddress = 0x10008, RegionSize = 0x7FFFFFFDFFF8, state = MEM_FREE,
            protect = PAGE_NOACCESS\<rparr>"
    and q2: "virtual_query demo_process 0x10004 =
      Some \<lparr>BaseAddress = 0x10004, RegionSize = 4, state = MEM_COMMIT,
            protect = PAGE_READWRITE\<rparr>"
    by (simp_all add: demo_fields demo_regions_values)
  from scan_page_skips_ineligible_region [OF q1, of literal_finditer "[0x41, 0x42]"]
    scan_page_skips_ineligible_region [OF q2, of literal_finditer "[0x41, 0x42]"]
  show ?thesis by (simp add: demo_fields)
qed

text \<open>
  C2. A whole-process scan (no module name, or an empty one) returns a list exactly when there is a complete visit list
  \<open>cs\<close> of cursor positions that starts at the process base, follows the ends of the
  regions and stays below \<open>0x7FFFFFFF0000\<close>. With \<open>return_multiple\<close> false the visit
  list ends at the first position whose region yields a match (or at the limit if there
  is none); with \<open>return_multiple\<close> true it ends only at the limit. The list returned
  is the matches of the visited regions in order, and the calls made are exactly those
  of the visited positions, so no region after the last one is queried or read.
\<close>

theorem whole_process_scan_course:
  assumes "module_name = None \<or> module_name = Some []"
  shows "found_addresses finditer p pattern module_name return_multiple = Some (Inr found, p1)
         \<longleftrightarrow>
         (\<exists>cs. visits p (\<lambda>c. \<not> return_multiple \<and> region_matches finditer p pattern c \<noteq> [])
                 0x7FFFFFFF0000 (process_base p) cs \<and>
               found = concat (map (region_matches finditer p pattern) cs) \<and>
               p1 = p\<lparr>calls := calls p @ concat (map (region_calls p) cs)\<rparr>)"
  by (simp only: found_addresses_no_module [OF assms] scan_all_from_iff)

theorem whole_process_scan_course_witness:
  "visits demo_process
     (\<lambda>c. \<not> False \<and> region_matches literal_finditer demo_process [0x00, 0x41] c \<noteq> [])
     0x7FFFFFFF0000 (process_base demo_process) [0x10000, 0x10004] \<and>
   found_addresses literal_finditer demo_process [0x00, 0x41] None False =
     Some (Inr [0x10004],
           demo_process\<lparr>calls := [QueryRegion 0x10000, ReadMemory 0x10000 4,
                                  QueryRegion 0x10004, ReadMemory 0x10004 4]\<rparr>) \<and>
   visits demo_process
     (\<lambda>c. \<not> True \<and> region_matches literal_finditer demo_process [0x41, 0x42] c \<noteq> [])
     0x7FFFFFFF0000 (process_base demo_process) [0x10000, 0x10004, 0x10008] \<and>
   found_addresses literal_finditer demo_process [0x41, 0x42] None True =
     Some (Inr [0x10000, 0x10002, 0x10005],
           demo_process\<lparr>calls := [QueryRegion 0x10000, ReadMemory 0x10000 4,
                                  QueryRegion 0x10004, ReadMemory 0x10004 4,
                                  QueryRegion 0x10008]\<rparr>)"
proof -
  let ?single = "[0x10000, 0x10004] :: int list"
  let ?all = "[0x10000, 0x10004, 0x10008] :: int list"
  have v1: "visits demo_process
     (\<lambda>c. \<not> False \<and> region_matches literal_finditer demo_process [0x00, 0x41] c \<noteq> [])
     0x7FFFFFFF0000 (process_base demo_process) ?single"
    by code_simp
  have f1: "[0x10004] = concat (map (region_matches literal_finditer demo_process [0x00, 0x41]) ?single)"
    by code_simp
  have c1: "concat (map (region_calls demo_process) ?single) =
     [QueryRegion 0x10000, ReadMemory 0x10000 4, QueryRegion 0x10004, ReadMemory 0x10004 4]"
    by code_simp
  have v2: "visits demo_process
     (\<lambda>c. \<not> True \<and> region_matches literal_finditer demo_process [0x41, 0x42] c \<noteq> [])
     0x7FFFFFFF0000 (process_base demo_process) ?all"
    by code_simp
  have f2: "[0x10000, 0x10002, 0x10005] =
     concat (map (region_matches literal_finditer demo_process [0x41, 0x42]) ?all)"
    by code_simp
  have c2: "concat (map (region_calls demo_process) ?all) =
     [QueryRegion 0x10000, ReadMemory 0x10000 4, QueryRegion 0x10004, ReadMemory 0x10004 4,
      QueryRegion 0x10008]"
    by code_simp
  have no_module: "(None :: string option) = None \<or> None = Some []"
    by simp
  have r1: "found_addresses literal_finditer demo_process [0x00, 0x41] None False =
     Some (Inr [0x10004], demo_process\<lparr>calls := calls demo_process @
             concat (map (region_calls demo_process) ?single)\<rparr>)"
    by (rule whole_process_scan_course [OF no_module, THEN iffD2]) (use v1 f1 in blast)
  have r2: "found_addresses literal_finditer demo_process [0x41, 0x42] None True =
     Some (Inr [0x10000, 0x10002, 0x10005], demo_process\<lparr>calls := calls demo_process @
             concat (map (region_calls demo_process) ?all)\<rparr>)"
    by (rule whole_process_scan_course [OF no_module, THEN iffD2]) (use v2 f2 in blast)
  from v1 v2 r1 r2 show ?thesis
    by (simp only: c1 c2 demo_fields append_Nil simp_thms)
qed








text \<open>
  C10. In a whole-process scan (no module name, or an empty one) with
  \<open>return_multiple\<close> false whose visit list ends at a
  region \<open>c\<close> with more than one match: no region visited before \<open>c\<close> has a match,
  the list collected is the whole match list of \<open>c\<close>, the calls made are those of the
  positions up to \<open>c\<close> and of no later one, and \<open>pattern_scan\<close> raises
  \<open>PatternMultipleResults\<close>.
\<close>

theorem early_stop_can_be_ambiguous:
  assumes "visits p (\<lambda>a. region_matches finditer p pattern a \<noteq> []) 0x7FFFFFFF0000
             (process_base p) (cs @ [c])"
    and "1 < length (region_matches finditer p pattern c)"
    and "module_name = None \<or> module_name = Some []"
  shows "(\<forall>a\<in>set cs. region_matches finditer p pattern a = []) \<and>
         found_addresses finditer p pattern module_name False =
           Some (Inr (region_matches finditer p pattern c),
                 p\<lparr>calls := calls p @ concat (map (region_calls p) (cs @ [c]))\<rparr>) \<and>
         pattern_scan finditer p pattern module_name False =
           Some (Inl (PatternMultipleResults (length (region_matches finditer p pattern c)) pattern),
                 p\<lparr>calls := calls p @ concat (map (region_calls p) (cs @ [c]))\<rparr>)"
proof -
  from visits_prefix_no_stop [OF assms(1)]
  have none: "\<forall>a\<in>set cs. region_matches finditer p pattern a = []" by simp
  then have cat: "concat (map (region_matches finditer p pattern) (cs @ [c])) =
      region_matches finditer p pattern c"
    by simp
  from assms(1) have "visits p (\<lambda>a. \<not> False \<and> region_matches finditer p pattern a \<noteq> [])
      0x7FFFFFFF0000 (process_base p) (cs @ [c])"
    by simp
  with cat have found: "found_addresses finditer p pattern module_name False =
      Some (Inr (region_matches finditer p pattern c),
            p\<lparr>calls := calls p @ concat (map (region_calls p) (cs @ [c]))\<rparr>)"
    unfolding found_addresses_no_module [OF assms(3)] scan_all_from_iff by metis
  from assms(2) have "region_matches finditer p pattern c \<noteq> []"
    by (cases "region_matches finditer p pattern c") simp_all
  with found assms(2) have "pattern_scan finditer p pattern module_name False =
      Some (Inl (PatternMultipleResults (length (region_matches finditer p pattern c)) pattern),
            p\<lparr>calls := calls p @ concat (map (region_calls p) (cs @ [c]))\<rparr>)"
    by (auto simp add: pattern_scan_def)
  with none found show ?thesis by simp
qed

theorem early_stop_can_be_ambiguous_witness:
  "visits demo_process (\<lambda>a. region_matches literal_finditer demo_process [0x41, 0x42] a \<noteq> [])
     0x7FFFFFFF0000 (process_base demo_process) ([] @ [0x10000]) \<and>
   region_matches literal_finditer demo_process [0x41, 0x42] 0x10000 = [0x10000, 0x10002] \<and>
   pattern_scan literal_finditer demo_process [0x41, 0x42] None False =
     Some (Inl (PatternMultipleResults 2 [0x41, 0x42]),
           demo_process\<lparr>calls := [QueryRegion 0x10000, ReadMemory 0x10000 4]\<rparr>)"
proof -
  have v: "visits demo_process
     (\<lambda>a. region_matches literal_finditer demo_process [0x41, 0x42] a \<noteq> [])
     0x7FFFFFFF0000 (process_base demo_process) ([] @ [0x10000])"
    by code_simp
  have ms: "region_matches literal_finditer demo_process [0x41, 0x42] 0x10000 = [0x10000, 0x10002]"
    by code_simp
  have cl: "concat (map (region_calls demo_process) [0x10000]) =
     [QueryRegion 0x10000, ReadMemory 0x10000 4]"
    by code_simp
  have len: "length [0x10000, 0x10002 :: int] = 2"
    by simp
  have two: "1 < length (region_matches literal_finditer demo_process [0x41, 0x42] 0x10000)"
    by (simp add: ms)
  have no_module: "(None :: string option) = None \<or> None = Some []"
    by simp
  from early_stop_can_be_ambiguous [OF v two no_module]
  have "pattern_scan literal_finditer demo_process [0x41, 0x42] None False =
     Some (Inl (PatternMultipleResults
                  (length (region_matches literal_finditer demo_process [0x41, 0x42] 0x10000))
                  [0x41, 0x42]),
           demo_process\<lparr>calls := calls demo_process @
             concat (map (region_calls demo_process) ([] @ [0x10000]))\<rparr>)"
    by blast
  then have "pattern_scan literal_finditer demo_process [0x41, 0x42] None False =
     Some (Inl (PatternMultipleResults 2 [0x41, 0x42]),
           demo_process\<lparr>calls := [QueryRegion 0x10000, ReadMemory 0x10000 4]\<rparr>)"
    by (simp only: append_Nil cl ms len demo_fields)
  with v ms show ?thesis by blast
qed

text \<open>
  C1. Whatever the scan (whole process or module), once it has collected the list
  \<open>found\<close>: an empty list makes \<open>pattern_scan\<close> raise \<open>PatternFailed\<close> with the
  pattern; more than one address without \<open>return_multiple\<close> makes it raise
  \<open>PatternMultipleResults\<close>; exactly one address without \<open>return_multiple\<close> is
  returned as that address, not as a list; and with \<open>return_multiple\<close> a list that is
  not empty is returned whole.
\<close>

theorem pattern_scan_result_policy:
  assumes "found_addresses finditer p pattern module_name return_multiple = Some (Inr found, p1)"
  shows "(found = [] \<longrightarrow>
            pattern_scan finditer p pattern module_name return_multiple =
              Some (Inl (PatternFailed pattern), p1)) \<and>
         (1 < length found \<and> \<not> return_multiple \<longrightarrow>
            pattern_scan finditer p pattern module_name return_multiple =
              Some (Inl (PatternMultipleResults (length found) pattern), p1)) \<and>
         (\<forall>a. found = [a] \<and> \<not> return_multiple \<longrightarrow>
            pattern_scan finditer p pattern module_name return_multiple =
              Some (Inr (Address a), p1)) \<and>
         (found \<noteq> [] \<and> return_multiple \<longrightarrow>
            pattern_scan finditer p pattern module_name return_multiple =
              Some (Inr (Addresses found), p1))"
  using assms by (auto simp add: pattern_scan_def)

theorem pattern_scan_result_policy_witness:
  "pattern_scan literal_finditer demo_process [0x43] None False =
     Some (Inl (PatternFailed [0x43]),
           demo_process\<lparr>calls := [QueryRegion 0x10000, ReadMemory 0x10000 4,
                                  QueryRegion 0x10004, ReadMemory 0x10004 4,
                                  QueryRegion 0x10008]\<rparr>) \<and>
   pattern_scan literal_finditer demo_process [0x41, 0x42] None False =
     Some (Inl (PatternMultipleResults 2 [0x41, 0x42]),
           demo_process\<lparr>calls := [QueryRegion 0x10000, ReadMemory 0x10000 4]\<rparr>) \<and>
   pattern_scan literal_finditer demo_process [0x00, 0x41] None False =
     Some (Inr (Address 0x10004),
           demo_process\<lparr>calls := [QueryRegion 0x10000, ReadMemory 0x10000 4,
                                  QueryRegion 0x10004, ReadMemory 0x10004 4]\<rparr>) \<and>
   pattern_scan literal_finditer demo_process [0x41, 0x42] None True =
     Some (Inr (Addresses [0x10000, 0x10002, 0x10005]),
           demo_process\<lparr>calls := [QueryRegion 0x10000, ReadMemory 0x10000 4,
                                  QueryRegion 0x10004, ReadMemory 0x10004 4,
                                  QueryRegion 0x10008]\<rparr>)"
  using pattern_scan_result_policy [OF demo_scan_nothing]
    pattern_scan_result_policy [OF demo_scan_ambiguous]
    pattern_scan_result_policy [OF demo_scan_single]
    pattern_scan_result_policy [OF demo_scan_multiple]
  by simp

section \<open>Typed values written and read back\<close>

text \<open>
  A successful write of \<open>bs\<close> at \<open>a\<close> makes a read of \<open>length bs\<close> bytes at \<open>a\<close>
  succeed with \<open>bs\<close>. So, for any encoder that packs \<open>v\<close> into \<open>calcsize\<close>
  bytes which unpack to \<open>v\<close> again, a \<open>write_typed\<close> that succeeds is followed by a
  \<open>read_typed\<close> of the same type at the same address that returns \<open>v\<close>. The
  little-endian integer formats of \<open>int_struct\<close> are such an encoder on every value
  in the range of the format.
\<close>

lemma mem_write_then_read:
  assumes "mem_write m a bs = Some m1"
  shows "mem_read m1 a (length bs) = Some bs"
proof -
  from assms have m1: "m1 = (\<lambda>x. if a \<le> x \<and> x < a + int (length bs)
                              then Some (bs ! nat (x - a)) else m x)"
    by (simp add: mem_write_def split: if_splits)
  have cells: "map (\<lambda>i. m1 (a + int i)) [0..<length bs] = map (\<lambda>i. Some (bs ! i)) [0..<length bs]"
    by (rule map_cong) (simp_all add: m1)
  have "map the (map (\<lambda>i. Some (bs ! i)) [0..<length bs]) = bs"
    by (simp add: o_def map_nth)
  moreover have "list_all (\<lambda>c. c \<noteq> None) (map (\<lambda>i. Some (bs ! i)) [0..<length bs])"
    by (simp add: list_all_iff)
  ultimately show ?thesis
    by (simp add: mem_read_def cells)
qed

lemma write_typed_then_read_typed:
  assumes "type_format_dict data_type = Some f"
    and "pack struct f v = Some packed_data"
    and "length packed_data = calcsize struct f"
    and "unpack struct f packed_data = Some v"
    and "write_typed type_format_dict struct p address v data_type = (Inr (), p1)"
  shows "\<exists>p2. read_typed type_format_dict struct p1 address data_type = (Inr v, p2) \<and>
              memory p2 = memory p1"
proof -
  from assms(1,2,5) have w: "write_bytes p address packed_data = (Inr (), p1)"
    by (simp add: write_typed_def)
  then obtain m1 where m1: "mem_write (memory p) address packed_data = Some m1"
    and p1: "memory p1 = m1"
    by (auto simp add: write_bytes_def log_call_def is_running_def Let_def
        split: option.splits if_splits)
  from mem_write_then_read [OF m1] p1 assms(3)
  have "mem_read (memory p1) address (calcsize struct f) = Some packed_data"
    by simp
  with assms(1,4) show ?thesis
    by (simp add: read_typed_def read_bytes_def log_call_def)
qed

lemma le_encode_length: "length (le_encode n v) = n"
  by (induction n arbitrary: v) simp_all

lemma le_decode_encode: "le_decode (le_encode n v) = v mod 256 ^ n"
proof (induction n arbitrary: v)
  case 0
  then show ?case by simp
next
  case (Suc n)
  have "uint (word_of_int v :: byte) = v mod 256"
    by (simp add: uint_word_of_int_eq take_bit_eq_mod)
  moreover have "v mod (256 * 256 ^ n) = 256 * (v div 256 mod 256 ^ n) + v mod 256"
    by (rule zmod_zmult2_eq) simp
  ultimately show ?case
    using Suc by simp
qed

lemma mod_of_negative:
  fixes v m :: int
  assumes "- m \<le> v" and "v < 0"
  shows "v mod m = v + m"
proof -
  have "v mod m = (v + m) mod m" by simp
  also from assms have "\<dots> = v + m" by (intro mod_pos_pos_trivial) simp_all
  finally show ?thesis .
qed

lemma int_struct_roundtrip:
  assumes "fmt_min f \<le> v" and "v \<le> fmt_max f"
  shows "\<exists>packed_data. pack int_struct f v = Some packed_data \<and>
           length packed_data = calcsize int_struct f \<and>
           unpack int_struct f packed_data = Some v"
proof (cases "v < 0")
  case False
  with assms have "v mod 256 ^ fmt_size f = v"
    by (cases f) (simp_all add: fmt_max_def)
  with assms False show ?thesis
    by (simp add: int_struct_def le_encode_length le_decode_encode)
next
  case True
  with assms have s: "fmt_signed f" by (cases f) (simp_all add: fmt_min_def)
  from assms True have "v mod 256 ^ fmt_size f = v + 256 ^ fmt_size f"
    by (intro mod_of_negative) (cases f; simp add: fmt_min_def)+
  moreover have "(256 :: int) ^ fmt_size f = 2 ^ (8 * fmt_size f)"
    by (cases f) simp_all
  moreover from assms s have "fmt_max f < v + 2 ^ (8 * fmt_size f)"
    by (cases f) (simp_all add: fmt_min_def fmt_max_def)
  ultimately show ?thesis
    using assms s by (simp add: int_struct_def le_encode_length le_decode_encode)
qed

section \<open>Claims about the typed codec\<close>

lemma le_decode_encode_word:
  fixes w :: "'a::len word"
  assumes "256 ^ n = (2 :: int) ^ LENGTH('a)"
  shows "word_of_int (le_decode (le_encode n (uint w))) = w"
proof -
  have "uint w mod 256 ^ n = uint w"
    unfolding assms by (simp add: mod_pos_pos_trivial)
  then show ?thesis by (simp add: le_decode_encode)
qed

lemma decode_encode:
  assumes "representable fmt v"
  shows "length (encode fmt v) = spec_calcsize fmt \<and> decode fmt (encode fmt v) = v"
proof (cases fmt)
  case (Fmt_int f)
  with assms obtain i where v: "v = IntValue i" and r: "fmt_min f \<le> i" "i \<le> fmt_max f"
    by (cases v) simp_all
  from int_struct_roundtrip [OF r] have
    "(if fmt_signed f \<and> fmt_max f < le_decode (le_encode (fmt_size f) i)
      then le_decode (le_encode (fmt_size f) i) - 2 ^ (8 * fmt_size f)
      else le_decode (le_encode (fmt_size f) i)) = i"
    by (auto simp add: int_struct_def le_encode_length split: if_splits)
  with Fmt_int v show ?thesis by (simp add: le_encode_length)
next
  case Fmt_f
  with assms obtain w where v: "v = Float32 w" by (cases v) simp_all
  have "word_of_int (le_decode (le_encode 4 (uint w))) = w"
    by (rule le_decode_encode_word) simp
  with Fmt_f v show ?thesis by (simp add: le_encode_length)
next
  case Fmt_d
  with assms obtain w where v: "v = Float64 w" by (cases v) simp_all
  have "word_of_int (le_decode (le_encode 8 (uint w))) = w"
    by (rule le_decode_encode_word) simp
  with Fmt_d v show ?thesis by (simp add: le_encode_length)
next
  case Fmt_bool
  with assms obtain b where v: "v = BoolValue b" by (cases v) simp_all
  with Fmt_bool show ?thesis by simp
qed

lemma value_eq_self: "value_eq v v = Some (\<not> is_nan v)"
  by (cases v) simp_all

text \<open>
  C7, as amended. For every type name of the table and every value representable in
  its type: the value is encoded into exactly the width of the type; decoding the
  encoding gives the value back, for a float bit for bit; the decoded value compares
  equal to the original under \<open>==\<close> exactly when it is not a float NaN; and a
  \<open>write_typed\<close> that succeeds is followed, on the memory it leaves, by a
  \<open>read_typed\<close> of the same type at the same address that returns the value.
\<close>

theorem typed_values_round_trip:
  assumes "type_format_dict data_type = Some fmt" and "representable fmt v"
  shows "\<exists>packed_data.
           pack spec_struct fmt v = Some packed_data \<and>
           length packed_data = calcsize spec_struct fmt \<and>
           unpack spec_struct fmt packed_data = Some v \<and>
           value_eq v v = Some (\<not> is_nan v) \<and>
           (\<forall>p p1. write_typed type_format_dict spec_struct p address v data_type = (Inr (), p1)
              \<longrightarrow> (\<exists>p2. read_typed type_format_dict spec_struct p1 address data_type = (Inr v, p2) \<and>
                        memory p2 = memory p1))"
proof -
  from decode_encode [OF assms(2)] assms(2)
  have pk: "pack spec_struct fmt v = Some (encode fmt v)"
    and len: "length (encode fmt v) = calcsize spec_struct fmt"
    and un: "unpack spec_struct fmt (encode fmt v) = Some v"
    by (simp_all add: spec_struct_def)
  have "\<exists>p2. read_typed type_format_dict spec_struct p1 address data_type = (Inr v, p2) \<and>
             memory p2 = memory p1"
    if "write_typed type_format_dict spec_struct p address v data_type = (Inr (), p1)" for p p1
    using write_typed_then_read_typed [OF assms(1) pk len un that] .
  with pk len un value_eq_self show ?thesis by blast
qed

lemma demo_write_int:
  "mem_write demo_memory 0x10000 [0xFE, 0xFF, 0xFF, 0xFF] =
     Some (\<lambda>x. if 0x10000 \<le> x \<and> x < 0x10000 + int (length [0xFE, 0xFF, 0xFF, 0xFF :: byte])
               then Some ([0xFE, 0xFF, 0xFF, 0xFF] ! nat (x - 0x10000)) else demo_memory x)"
proof -
  have "list_all (\<lambda>i. demo_memory (0x10000 + int i) \<noteq> None)
          [0..<length [0xFE, 0xFF, 0xFF, 0xFF :: byte]]"
    by code_simp
  then show ?thesis by (simp only: mem_write_def if_True)
qed

theorem typed_values_round_trip_witness:
  "spec_type_format_dict ''int'' = Some (Fmt_int Fmt_i) \<and>
   representable (Fmt_int Fmt_i) (IntValue (- 2)) \<and>
   pack spec_struct (Fmt_int Fmt_i) (IntValue (- 2)) = Some [0xFE, 0xFF, 0xFF, 0xFF] \<and>
   unpack spec_struct (Fmt_int Fmt_i) [0xFE, 0xFF, 0xFF, 0xFF] = Some (IntValue (- 2)) \<and>
   value_eq (IntValue (- 2)) (IntValue (- 2)) = Some True \<and>
   fst (write_typed spec_type_format_dict spec_struct demo_process 0x10000 (IntValue (- 2)) ''int'')
     = Inr () \<and>
   fst (read_typed spec_type_format_dict spec_struct
          (snd (write_typed spec_type_format_dict spec_struct demo_process 0x10000
                  (IntValue (- 2)) ''int''))
          0x10000 ''int'') = Inr (IntValue (- 2))"
proof -
  have t: "spec_type_format_dict ''int'' = Some (Fmt_int Fmt_i)"
    by (simp add: spec_type_format_dict_def)
  have r: "representable (Fmt_int Fmt_i) (IntValue (- 2))"
    by (simp add: fmt_min_def fmt_max_def)
  have enc: "encode (Fmt_int Fmt_i) (IntValue (- 2)) = [0xFE, 0xFF, 0xFF, 0xFF]"
    by code_simp
  from r enc have pk: "pack spec_struct (Fmt_int Fmt_i) (IntValue (- 2)) = Some [0xFE, 0xFF, 0xFF, 0xFF]"
    by (simp add: spec_struct_def)
  have w: "fst (write_typed spec_type_format_dict spec_struct demo_process 0x10000
                  (IntValue (- 2)) ''int'') = Inr ()"
    by (simp add: write_typed_def t pk write_bytes_def log_call_def demo_fields demo_write_int)
  then have w': "write_typed spec_type_format_dict spec_struct demo_process 0x10000
                  (IntValue (- 2)) ''int'' =
       (Inr (), snd (write_typed spec_type_format_dict spec_struct demo_process 0x10000
                  (IntValue (- 2)) ''int''))"
    by (metis prod.collapse)
  from typed_values_round_trip [where type_format_dict = spec_type_format_dict
      and data_type = "''int''" and address = "0x10000", OF t r] pk w'
  have "unpack spec_struct (Fmt_int Fmt_i) [0xFE, 0xFF, 0xFF, 0xFF] = Some (IntValue (- 2))"
    and "value_eq (IntValue (- 2)) (IntValue (- 2)) = Some True"
    and "fst (read_typed spec_type_format_dict spec_struct
          (snd (write_typed spec_type_format_dict spec_struct demo_process 0x10000
                  (IntValue (- 2)) ''int''))
          0x10000 ''int'') = Inr (IntValue (- 2))"
    by fastforce+
  with t r pk w show ?thesis by blast
qed

text \<open>
  C7 as it was stated fails at a NaN: the 64-bit float with bit pattern
  \<open>0x7FF8000000000000\<close> is encoded and decoded bit for bit, and the decoded value is
  not equal to the original under \<open>==\<close>.
\<close>

theorem typed_round_trip_nan_counterexample:
  "spec_type_format_dict ''double'' = Some Fmt_d \<and>
   representable Fmt_d (Float64 0x7FF8000000000000) \<and>
   pack spec_struct Fmt_d (Float64 0x7FF8000000000000) =
     Some [0x00, 0x00, 0x00, 0x00, 0x00, 0x00, 0xF8, 0x7F] \<and>
   unpack spec_struct Fmt_d [0x00, 0x00, 0x00, 0x00, 0x00, 0x00, 0xF8, 0x7F] =
     Some (Float64 0x7FF8000000000000) \<and>
   value_eq (Float64 0x7FF8000000000000) (Float64 0x7FF8000000000000) = Some False"
proof -
  have enc: "encode Fmt_d (Float64 0x7FF8000000000000) =
      [0x00, 0x00, 0x00, 0x00, 0x00, 0x00, 0xF8, 0x7F]"
    by code_simp
  have dec: "decode Fmt_d [0x00, 0x00, 0x00, 0x00, 0x00, 0x00, 0xF8, 0x7F] =
      Float64 0x7FF8000000000000"
    by code_simp
  have nan: "is_nan64 0x7FF8000000000000"
    by code_simp
  from enc dec nan show ?thesis
    by (simp add: spec_struct_def spec_type_format_dict_def)
qed

section \<open>Claims about the mouse handler\<close>

text \<open>
  \<open>set_mouse_position\<close> dispatches its one message, the mouse move \<open>0x200\<close>, with
  the method its own \<open>use_post\<close> selects.
\<close>

lemma set_mouse_position_events:
  assumes "set_mouse_position c x y convert_from_client use_post = (Inr res, c1)"
  shows "\<exists>x1 y1. events c1 = events c @
           [WriteMousePosition x1 y1,
            Message (if use_post then PostMessageW else SendMessageW) (window_handle c) 0x200 0 0]"
  using assms
  by (auto simp add: set_mouse_position_def log_event_def Let_def
      split: if_splits option.splits sum.splits prod.splits)

text \<open>
  A click that returns normally has dispatched the button messages with the method
  \<open>use_post\<close> selects, and the mouse move before them with \<open>SendMessageW\<close> whatever
  \<open>use_post\<close> is: \<open>click\<close> calls \<open>set_mouse_position\<close> without passing it on.
\<close>

lemma click_events:
  assumes "click c x y right_click sleep_duration use_post = Some (Inr (), c1)"
  shows "\<exists>x1 y1. events c1 = events c @
           [WriteMousePosition x1 y1,
            Message SendMessageW (window_handle c) 0x200 0 0,
            Message (if use_post then PostMessageW else SendMessageW) (window_handle c)
              (if right_click then 0x204 else 0x201) 1 0] @
           (if sleep_duration > 0 then [Sleep sleep_duration] else []) @
           [Message (if use_post then PostMessageW else SendMessageW) (window_handle c)
              (if right_click then 0x205 else 0x202) 0 0]"
  using assms
  by (auto simp add: click_def set_mouse_position_def log_event_def Let_def
      split: if_splits option.splits sum.splits prod.splits)

text \<open>
  Whether the click succeeds or one of its steps raises, the lock is free when the
  click returns.
\<close>

lemma click_releases_lock:
  assumes "click c x y right_click sleep_duration use_post = Some (r, c1)"
  shows "click_lock c1 = Some False"
  using assms
  by (auto simp add: click_def Let_def split: if_splits sum.splits prod.splits)

text \<open>
  C9. The caller's \<open>use_post\<close> is meant to select the dispatch method of every message
  of the invocation. A left click at \<open>(10, 20)\<close> with \<open>use_post\<close> true posts the
  button-down and button-up messages, but its mouse-move message goes out through
  \<open>SendMessageW\<close>.
\<close>

theorem click_use_post_sends_mouse_move:
  "click demo_client 10 20 False 0 True =
     Some (Inr (),
           demo_client\<lparr>click_lock := Some False,
                        events := [WriteMousePosition 110 220,
                                   Message SendMessageW 7 0x200 0 0,
                                   Message PostMessageW 7 0x201 1 0,
                                   Message PostMessageW 7 0x202 0 0]\<rparr>)"
  by (simp add: click_def set_mouse_position_def log_event_def demo_client_def Let_def)

end
